theory Spec2Isabelle
  imports Main
begin

section \<open>Strings\<close>

text \<open>
  A JavaScript string is modelled as an Isabelle \<open>string\<close>: a list of 8-bit code units,
  read as Latin-1 (the first 256 code points of Unicode). The character classes of the
  regular expressions and \<open>toLowerCase\<close> are written out on that range.
\<close>

definition code :: "char \<Rightarrow> nat" where
  "code c = of_char c"

text \<open>\<open>\w\<close> of a JavaScript regular expression: \<open>[A-Za-z0-9_]\<close>.\<close>

definition is_word :: "char \<Rightarrow> bool" where
  "is_word c =
     ((65 \<le> code c \<and> code c \<le> 90) \<or> (97 \<le> code c \<and> code c \<le> 122)
      \<or> (48 \<le> code c \<and> code c \<le> 57) \<or> code c = 95)"

text \<open>\<open>\s\<close>: tab, line feed, vertical tab, form feed, carriage return, space, and the
  no-break space U+00A0 (the only other white space below U+0100).\<close>

definition is_space :: "char \<Rightarrow> bool" where
  "is_space c = ((9 \<le> code c \<and> code c \<le> 13) \<or> code c = 32 \<or> code c = 160)"

definition hyphen :: char where
  "hyphen = CHR ''-''"

text \<open>\<open>String.prototype.toLowerCase\<close> on one code unit: \<open>A-Z\<close> and the Latin-1 capitals
  U+00C0..U+00DE (without the multiplication sign U+00D7) move up by 32.\<close>

definition lower_char :: "char \<Rightarrow> char" where
  "lower_char c =
     (if (65 \<le> code c \<and> code c \<le> 90) \<or> (192 \<le> code c \<and> code c \<le> 222 \<and> code c \<noteq> 215)
      then char_of (code c + 32) else c)"

definition toLowerCase :: "string \<Rightarrow> string" where
  "toLowerCase s = map lower_char s"

section \<open>createSlug (clientStorage.ts)\<close>

text \<open>\<open>.replace(/[^\w\s-]/g, '')\<close>: every character outside the class is deleted.\<close>

definition remove_special :: "string \<Rightarrow> string" where
  "remove_special s = filter (\<lambda>c. is_word c \<or> is_space c \<or> c = hyphen) s"

text \<open>\<open>.replace(/[\s_-]+/g, '-')\<close>: every maximal run of the class \<open>[\s_-]\<close> becomes
  one hyphen.\<close>

definition is_sep :: "char \<Rightarrow> bool" where
  "is_sep c = (is_space c \<or> c = CHR ''_'' \<or> c = hyphen)"

function collapse_separators :: "string \<Rightarrow> string" where
  "collapse_separators [] = []"
| "collapse_separators (c # cs) =
     (if is_sep c then hyphen # collapse_separators (dropWhile is_sep cs)
      else c # collapse_separators cs)"
  by pat_completeness auto
termination
  by (relation "measure length") (auto simp: length_dropWhile_le less_Suc_eq_le)

text \<open>\<open>.replace(/^-+|-+$/g, '')\<close>: the run of hyphens at the start and the run of hyphens
  at the end are deleted.\<close>

definition trim_hyphens :: "string \<Rightarrow> string" where
  "trim_hyphens s =
     rev (dropWhile (\<lambda>c. c = hyphen) (rev (dropWhile (\<lambda>c. c = hyphen) s)))"

definition createSlug :: "string \<Rightarrow> string" where
  "createSlug title =
     trim_hyphens (collapse_separators (remove_special (toLowerCase title)))"

text \<open>
  The algorithm in the words of the specification, to be compared with \<open>createSlug\<close>: after
  lowercasing, "strip every character that is not a-z, 0-9, whitespace, or hyphen", then
  collapse the runs and trim the hyphens.
\<close>

definition is_lower_alnum :: "char \<Rightarrow> bool" where
  "is_lower_alnum c =
     ((97 \<le> code c \<and> code c \<le> 122) \<or> (48 \<le> code c \<and> code c \<le> 57))"

definition slugify_spec :: "string \<Rightarrow> string" where
  "slugify_spec title =
     trim_hyphens (collapse_separators
       (filter (\<lambda>c. is_lower_alnum c \<or> is_space c \<or> c = hyphen) (toLowerCase title)))"

text \<open>The same with the underscore kept by the stripping step.\<close>

definition slugify_keep_underscore :: "string \<Rightarrow> string" where
  "slugify_keep_underscore title =
     trim_hyphens (collapse_separators
       (filter (\<lambda>c. is_lower_alnum c \<or> c = CHR ''_'' \<or> is_space c \<or> c = hyphen)
          (toLowerCase title)))"

text \<open>ASCII letters and digits; an input without any is "symbol-only".\<close>

definition is_alnum :: "char \<Rightarrow> bool" where
  "is_alnum c =
     ((65 \<le> code c \<and> code c \<le> 90) \<or> (97 \<le> code c \<and> code c \<le> 122)
      \<or> (48 \<le> code c \<and> code c \<le> 57))"

section \<open>The local backend (clientStorage.ts)\<close>

text \<open>
  \<open>ClientArticleMetadata\<close> and \<open>ClientArticleListItem\<close>. Numbers are integers here; the
  optional \<open>seoScore\<close> is an option. The three fields that \<open>updateClientArticle\<close> can
  overwrite are options as well: \<open>None\<close> is the value \<open>undefined\<close>, which
  \<open>JSON.stringify\<close> writes as a missing property. Fields whose names are used again by the
  generator's records carry the prefix \<open>art_\<close> or \<open>li_\<close>.
\<close>

record ClientArticleMetadata =
  title :: "string option"
  slug :: string
  art_topic :: string
  art_keywords :: "string list"
  art_tone :: string
  art_wordCount :: int
  readabilityScore :: int
  seoScore :: "int option"
  createdAt :: string
  updatedAt :: string
  art_content :: "string option"
  metaDescription :: "string option"

record ClientArticleListItem =
  li_title :: "string option"
  li_slug :: string
  li_topic :: string
  li_wordCount :: int
  li_readabilityScore :: int
  li_seoScore :: "int option"
  li_createdAt :: string
  li_metaDescription :: "string option"

text \<open>
  What \<open>localStorage.getItem(STORAGE_KEY)\<close> holds: \<open>None\<close> when the key is absent (or holds
  the empty string, which \<open>!stored\<close> treats alike); otherwise a text that \<open>JSON.parse\<close>
  either rejects or reads as the array of records that \<open>JSON.stringify\<close> wrote.
  \<open>localStorage.setItem\<close> is taken to succeed.
\<close>

datatype stored = Unparsable | Collection "ClientArticleMetadata list"

type_synonym localStorage = "stored option"

text \<open>A thrown value: an instance of \<open>Error\<close> (also \<open>TypeError\<close>, \<open>SyntaxError\<close>) with its
  message, or any other value.\<close>

datatype exn = JsError string | NonError

definition JSON_parse :: "stored \<Rightarrow> exn + ClientArticleMetadata list" where
  "JSON_parse v =
     (case v of Unparsable \<Rightarrow> Inl (JsError ''Unexpected token'') | Collection as \<Rightarrow> Inr as)"

definition JSON_stringify :: "ClientArticleMetadata list \<Rightarrow> stored" where
  "JSON_stringify as = Collection as"

text \<open>\<open>Array.prototype.findIndex\<close>: the first index whose element satisfies the predicate,
  \<open>-1\<close> when there is none.\<close>

fun findIndex :: "('a \<Rightarrow> bool) \<Rightarrow> 'a list \<Rightarrow> int" where
  "findIndex P [] = -1"
| "findIndex P (x # xs) =
     (if P x then 0 else (let i = findIndex P xs in if i < 0 then -1 else i + 1))"

definition to_list_item :: "ClientArticleMetadata \<Rightarrow> ClientArticleListItem" where
  "to_list_item article =
     \<lparr> li_title = title article, li_slug = slug article, li_topic = art_topic article,
       li_wordCount = art_wordCount article, li_readabilityScore = readabilityScore article,
       li_seoScore = seoScore article, li_createdAt = createdAt article,
       li_metaDescription = metaDescription article \<rparr>"

text \<open>
  \<open>getClientArticles\<close>. The parameter \<open>getTime\<close> stands for
  \<open>new Date(s).getTime()\<close>, with \<open>None\<close> for the \<open>NaN\<close> of a text that is not a date;
  \<open>newest_first\<close> is the comparator, whose \<open>None\<close> is \<open>NaN\<close> again. The parameter
  \<open>array_sort\<close> stands for \<open>Array.prototype.sort\<close>, whose result the language leaves to
  the implementation when the comparator is not consistent. The first function is the body
  of the \<open>try\<close>, the second adds the \<open>catch\<close>.
\<close>

definition newest_first ::
  "(string \<Rightarrow> int option) \<Rightarrow> ClientArticleListItem \<Rightarrow> ClientArticleListItem \<Rightarrow> int option" where
  "newest_first getTime a b =
     (case getTime (li_createdAt b) of
        None \<Rightarrow> None
      | Some tb \<Rightarrow>
          (case getTime (li_createdAt a) of None \<Rightarrow> None | Some ta \<Rightarrow> Some (tb - ta)))"

type_synonym array_sort =
  "(ClientArticleListItem \<Rightarrow> ClientArticleListItem \<Rightarrow> int option)
     \<Rightarrow> ClientArticleListItem list \<Rightarrow> ClientArticleListItem list"

definition getClientArticles_try ::
  "array_sort \<Rightarrow> (string \<Rightarrow> int option) \<Rightarrow> localStorage
     \<Rightarrow> exn + ClientArticleListItem list" where
  "getClientArticles_try array_sort getTime st =
     (case st of
        None \<Rightarrow> Inr []
      | Some v \<Rightarrow>
          (case JSON_parse v of
             Inl e \<Rightarrow> Inl e
           | Inr articles \<Rightarrow>
               Inr (array_sort (newest_first getTime) (map to_list_item articles))))"

definition getClientArticles ::
  "array_sort \<Rightarrow> (string \<Rightarrow> int option) \<Rightarrow> localStorage
     \<Rightarrow> exn + ClientArticleListItem list" where
  "getClientArticles array_sort getTime st =
     (case getClientArticles_try array_sort getTime st of Inl e \<Rightarrow> Inr [] | Inr r \<Rightarrow> Inr r)"

text \<open>\<open>getClientArticleBySlug\<close>; \<open>None\<close> is the \<open>null\<close> result.\<close>

definition getClientArticleBySlug_try ::
  "string \<Rightarrow> localStorage \<Rightarrow> exn + ClientArticleMetadata option" where
  "getClientArticleBySlug_try s st =
     (case st of
        None \<Rightarrow> Inr None
      | Some v \<Rightarrow>
          (case JSON_parse v of
             Inl e \<Rightarrow> Inl e
           | Inr articles \<Rightarrow> Inr (find (\<lambda>article. slug article = s) articles)))"

definition getClientArticleBySlug ::
  "string \<Rightarrow> localStorage \<Rightarrow> exn + ClientArticleMetadata option" where
  "getClientArticleBySlug s st =
     (case getClientArticleBySlug_try s st of Inl e \<Rightarrow> Inr None | Inr r \<Rightarrow> Inr r)"

text \<open>
  \<open>saveClientArticle\<close>. \<open>metadata\<close> is the \<open>Partial\<close> record, each field an option;
  \<open>now\<close> is \<open>new Date().toISOString()\<close>. The \<open>catch\<close> rethrows.
\<close>

record PartialMetadata =
  pm_topic :: "string option"
  pm_keywords :: "string list option"
  pm_tone :: "string option"
  pm_wordCount :: "int option"
  pm_readabilityScore :: "int option"
  pm_seoScore :: "int option"
  pm_createdAt :: "string option"
  pm_metaDescription :: "string option"

definition or_else :: "'a option \<Rightarrow> ('a \<Rightarrow> bool) \<Rightarrow> 'a \<Rightarrow> 'a" where
  "or_else v falsy d = (case v of None \<Rightarrow> d | Some x \<Rightarrow> if falsy x then d else x)"

definition saveClientArticle ::
  "string \<Rightarrow> string \<Rightarrow> string \<Rightarrow> PartialMetadata \<Rightarrow> localStorage
     \<Rightarrow> localStorage \<times> (exn + string)" where
  "saveClientArticle now ttl cnt metadata st =
     (let s = createSlug ttl;
          article = \<lparr> title = Some ttl, slug = s,
            art_topic = or_else (pm_topic metadata) (\<lambda>x. x = []) [],
            art_keywords = or_else (pm_keywords metadata) (\<lambda>x. False) [],
            art_tone = or_else (pm_tone metadata) (\<lambda>x. x = []) ''professional'',
            art_wordCount = or_else (pm_wordCount metadata) (\<lambda>x. x = 0) 0,
            readabilityScore = or_else (pm_readabilityScore metadata) (\<lambda>x. x = 0) 0,
            seoScore = pm_seoScore metadata,
            createdAt = or_else (pm_createdAt metadata) (\<lambda>x. x = []) now,
            updatedAt = now, art_content = Some cnt,
            metaDescription = Some (or_else (pm_metaDescription metadata) (\<lambda>x. x = []) []) \<rparr>
      in case (case st of None \<Rightarrow> Inr [] | Some v \<Rightarrow> JSON_parse v) of
           Inl e \<Rightarrow> (st, Inl e)
         | Inr articles \<Rightarrow>
             (let existingIndex = findIndex (\<lambda>a. slug a = s) articles;
                  articles' = (if existingIndex \<ge> 0 then articles[nat existingIndex := article]
                               else articles @ [article])
              in (Some (JSON_stringify articles'), Inr s)))"

text \<open>
  \<open>updateClientArticle\<close>. Each of the three properties of \<open>updates\<close> is absent
  (\<open>None\<close>) or present with a value, and the value of a present property is a string or
  \<open>undefined\<close> (\<open>Some None\<close>). The spread
  \<open>{...articles[index], ...updates, updatedAt: now}\<close> overwrites a field with the value of
  every property that is present, \<open>undefined\<close> included.
\<close>

record ArticleUpdates =
  upd_content :: "string option option"
  upd_title :: "string option option"
  upd_metaDescription :: "string option option"

definition apply_updates ::
  "string \<Rightarrow> ArticleUpdates \<Rightarrow> ClientArticleMetadata \<Rightarrow> ClientArticleMetadata" where
  "apply_updates now updates article =
     article \<lparr> art_content := (case upd_content updates of None \<Rightarrow> art_content article | Some v \<Rightarrow> v),
               title := (case upd_title updates of None \<Rightarrow> title article | Some v \<Rightarrow> v),
               metaDescription :=
                 (case upd_metaDescription updates of None \<Rightarrow> metaDescription article | Some v \<Rightarrow> v),
               updatedAt := now \<rparr>"

definition updateClientArticle_try ::
  "string \<Rightarrow> string \<Rightarrow> ArticleUpdates \<Rightarrow> localStorage \<Rightarrow> localStorage \<times> (exn + bool)" where
  "updateClientArticle_try now s updates st =
     (case st of
        None \<Rightarrow> (st, Inr False)
      | Some v \<Rightarrow>
          (case JSON_parse v of
             Inl e \<Rightarrow> (st, Inl e)
           | Inr articles \<Rightarrow>
               (let index = findIndex (\<lambda>article. slug article = s) articles
                in if index < 0 then (st, Inr False)
                   else (Some (JSON_stringify
                            (articles[nat index := apply_updates now updates (articles ! nat index)])),
                         Inr True))))"

definition updateClientArticle ::
  "string \<Rightarrow> string \<Rightarrow> ArticleUpdates \<Rightarrow> localStorage \<Rightarrow> localStorage \<times> (exn + bool)" where
  "updateClientArticle now s updates st =
     (case updateClientArticle_try now s updates st of
        (st', Inl e) \<Rightarrow> (st', Inr False)
      | (st', Inr b) \<Rightarrow> (st', Inr b))"

text \<open>\<open>deleteClientArticle\<close>.\<close>

definition deleteClientArticle_try ::
  "string \<Rightarrow> localStorage \<Rightarrow> localStorage \<times> (exn + bool)" where
  "deleteClientArticle_try s st =
     (case st of
        None \<Rightarrow> (st, Inr False)
      | Some v \<Rightarrow>
          (case JSON_parse v of
             Inl e \<Rightarrow> (st, Inl e)
           | Inr articles \<Rightarrow>
               (let filteredArticles = filter (\<lambda>article. slug article \<noteq> s) articles
                in (Some (JSON_stringify filteredArticles), Inr True))))"

definition deleteClientArticle ::
  "string \<Rightarrow> localStorage \<Rightarrow> localStorage \<times> (exn + bool)" where
  "deleteClientArticle s st =
     (case deleteClientArticle_try s st of
        (st', Inl e) \<Rightarrow> (st', Inr False)
      | (st', Inr b) \<Rightarrow> (st', Inr b))"

text \<open>The slugs of the records in the stored collection.\<close>

definition stored_slugs :: "localStorage \<Rightarrow> string set" where
  "stored_slugs st =
     (case st of Some (Collection articles) \<Rightarrow> set (map slug articles) | _ \<Rightarrow> {})"

section \<open>The step-by-step generator (ArticleGenerator.tsx)\<close>

subsection \<open>Data\<close>

record H2ContentData =
  heading :: string
  content :: string
  wordCount :: int
  isGenerated :: bool
  isGenerating :: bool
  error :: "string option"

record SEOContent =
  h1_heading :: string
  h2_headings :: "string list"
  meta_description :: string
  seo_slug :: string

record HeadingsGenerationResponse =
  seo_content :: SEOContent

datatype tone = Professional | Casual | Formal

text \<open>The fields of the form that \<open>watch()\<close> returns and these functions read.\<close>

record FormData =
  topic :: string
  form_keywords :: string
  tone :: tone

record H2ContentRequest =
  req_topic :: string
  req_keywords :: "string list"
  req_tone :: tone
  include_paraphrasing :: bool
  paraphrase_config :: "unit option"
  req_seo_content :: SEOContent
  h2_heading :: string
  previous_content :: string

record H2ContentResponse =
  generated_content :: string
  word_count :: int

text \<open>How the promise of \<open>articleAPI.generateH2Content\<close> settles.\<close>

datatype api_result = Resolved H2ContentResponse | Rejected exn

datatype generation_step = StepSetup | StepHeadings | StepContent

text \<open>
  The state of the component: the \<open>useState\<close> variables and the \<open>useRef\<close> cells that the
  generator reads and writes (\<open>error_message\<close> is the state variable \<open>error\<close>). A state
  variable holds the value after all the updates queued so far. The field \<open>requests\<close> is a
  log, kept for the proofs, of the calls of \<open>articleAPI.generateH2Content\<close>: the index of
  the section and the request, in the order of the calls.
\<close>

record component =
  headingsResponse :: "HeadingsGenerationResponse option"
  h2Contents :: "H2ContentData list"
  isGeneratingAll :: bool
  generationStep :: generation_step
  error_message :: "string option"
  isGeneratingAllRef :: bool
  generationInProgressRef :: bool
  h2ContentsRef :: "H2ContentData list"
  headingsResponseRef :: "HeadingsGenerationResponse option"
  requests :: "(nat \<times> H2ContentRequest) list"

definition initial_component :: component where
  "initial_component =
     \<lparr> headingsResponse = None, h2Contents = [], isGeneratingAll = False,
       generationStep = StepSetup, error_message = None, isGeneratingAllRef = False,
       generationInProgressRef = False, h2ContentsRef = [], headingsResponseRef = None,
       requests = [] \<rparr>"

text \<open>The two \<open>useEffect\<close> hooks that copy the state into the refs after a render.\<close>

definition sync_refs :: "component \<Rightarrow> component" where
  "sync_refs st = st \<lparr> h2ContentsRef := h2Contents st, headingsResponseRef := headingsResponse st \<rparr>"

subsection \<open>Strings and arrays\<close>

text \<open>\<open>Array.prototype.join\<close>.\<close>

fun join_strings :: "string \<Rightarrow> string list \<Rightarrow> string" where
  "join_strings sep [] = []"
| "join_strings sep [x] = x"
| "join_strings sep (x # y # ys) = x @ sep @ join_strings sep (y # ys)"

text \<open>The separator \<open>"\n\n"\<close>.\<close>

definition blank_line :: string where
  "blank_line = [CHR 0x0A, CHR 0x0A]"

text \<open>The template \<open>`## ${h2.heading}\n\n${h2.content}`\<close>.\<close>

definition render_section :: "H2ContentData \<Rightarrow> string" where
  "render_section h2 = ''## '' @ heading h2 @ blank_line @ content h2"

text \<open>\<open>String.prototype.split(",")\<close> and \<open>String.prototype.trim\<close>.\<close>

fun split_comma :: "string \<Rightarrow> string list" where
  "split_comma [] = [[]]"
| "split_comma (c # cs) =
     (if c = CHR '','' then [] # split_comma cs
      else (case split_comma cs of [] \<Rightarrow> [[c]] | w # ws \<Rightarrow> (c # w) # ws))"

definition trim :: "string \<Rightarrow> string" where
  "trim s = rev (dropWhile is_space (rev (dropWhile is_space s)))"

definition parse_keywords :: "string \<Rightarrow> string list" where
  "parse_keywords ks = filter (\<lambda>k. length k > 0) (map trim (split_comma ks))"

text \<open>\<open>prev.map((h2, idx) => idx === i ? f(h2) : h2)\<close>.\<close>

definition map_index :: "nat \<Rightarrow> ('a \<Rightarrow> 'a) \<Rightarrow> 'a list \<Rightarrow> 'a list" where
  "map_index i f prev = map (\<lambda>(idx, h2). if idx = i then f h2 else h2) (enumerate 0 prev)"

subsection \<open>completeArticle\<close>

definition completeArticle :: "component \<Rightarrow> string" where
  "completeArticle st =
     (case headingsResponse st of
        None \<Rightarrow> []
      | Some hr \<Rightarrow>
          join_strings blank_line
            ((''# '' @ h1_heading (seo_content hr))
             # map render_section
                 (filter (\<lambda>h2. isGenerated h2 \<and> content h2 \<noteq> []) (h2Contents st))))"

text \<open>
  The article in the words of the specification, to be compared with \<open>completeArticle\<close>:
  the H1 line, then one block for every section that is generated, joined by blank lines.
\<close>

definition assembleArticle_spec :: "component \<Rightarrow> string" where
  "assembleArticle_spec st =
     (case headingsResponse st of
        None \<Rightarrow> []
      | Some hr \<Rightarrow>
          join_strings blank_line
            ((''# '' @ h1_heading (seo_content hr))
             # map render_section (filter isGenerated (h2Contents st))))"

subsection \<open>The updates of one section\<close>

text \<open>\<open>{ ...h2, isGenerating: true, error: undefined }\<close>\<close>

definition mark_generating :: "H2ContentData \<Rightarrow> H2ContentData" where
  "mark_generating h2 = h2 \<lparr> isGenerating := True, error := None \<rparr>"

text \<open>\<open>{ ...h2, content: response.generated_content, wordCount: response.word_count,
  isGenerated: true, isGenerating: false }\<close>\<close>

definition mark_generated :: "H2ContentResponse \<Rightarrow> H2ContentData \<Rightarrow> H2ContentData" where
  "mark_generated response h2 =
     h2 \<lparr> content := generated_content response, wordCount := word_count response,
          isGenerated := True, isGenerating := False \<rparr>"

text \<open>\<open>{ ...h2, isGenerating: false, error: errorMessage }\<close>\<close>

definition mark_failed :: "string \<Rightarrow> H2ContentData \<Rightarrow> H2ContentData" where
  "mark_failed errorMessage h2 = h2 \<lparr> isGenerating := False, error := Some errorMessage \<rparr>"

text \<open>\<open>err instanceof Error ? err.message : "Failed to generate H2 content"\<close>\<close>

definition errorMessage_of :: "exn \<Rightarrow> string" where
  "errorMessage_of err =
     (case err of JsError m \<Rightarrow> m | NonError \<Rightarrow> ''Failed to generate H2 content'')"

definition setH2Contents :: "(H2ContentData list \<Rightarrow> H2ContentData list) \<Rightarrow> component \<Rightarrow> component" where
  "setH2Contents f st = st \<lparr> h2Contents := f (h2Contents st) \<rparr>"

text \<open>The context for the remote generator: the sections before \<open>i\<close> that are generated.\<close>

definition previousContent_of :: "H2ContentData list \<Rightarrow> nat \<Rightarrow> string" where
  "previousContent_of currentH2Contents i =
     join_strings blank_line
       (map render_section (filter isGenerated (take i currentH2Contents)))"

text \<open>The request object; the caller has checked that \<open>i\<close> is an index of the array.\<close>

definition section_request ::
  "FormData \<Rightarrow> HeadingsGenerationResponse \<Rightarrow> H2ContentData list \<Rightarrow> nat \<Rightarrow> H2ContentRequest" where
  "section_request formData currentHeadings currentH2Contents i =
     \<lparr> req_topic = topic formData, req_keywords = parse_keywords (form_keywords formData),
       req_tone = tone formData, include_paraphrasing = False, paraphrase_config = None,
       req_seo_content = seo_content currentHeadings,
       h2_heading = heading (currentH2Contents ! i),
       previous_content = previousContent_of currentH2Contents i \<rparr>"

definition log_request :: "nat \<Rightarrow> H2ContentRequest \<Rightarrow> component \<Rightarrow> component" where
  "log_request i request st = st \<lparr> requests := requests st @ [(i, request)] \<rparr>"

text \<open>
  The status of a section in the words of the specification, to be compared with the flags
  of \<open>H2ContentData\<close>: one of pending, generating, generated and failed, with an error
  message only when it is failed. Generated is the status of the sections that the article
  shows and that a bulk run skips, that is, of those with \<open>isGenerated\<close>.
\<close>

datatype section_status = Pending | Generating | Generated | Failed

definition status_spec :: "H2ContentData \<Rightarrow> section_status" where
  "status_spec h2 =
     (if isGenerating h2 then Generating
      else if isGenerated h2 then Generated
      else if error h2 \<noteq> None then Failed
      else Pending)"

subsection \<open>generateHeadings\<close>

text \<open>The function after its request has settled; \<open>result\<close> is the outcome of
  \<open>articleAPI.generateHeadings\<close>.\<close>

definition initial_section :: "string \<Rightarrow> H2ContentData" where
  "initial_section h =
     \<lparr> heading = h, content = [], wordCount = 0, isGenerated = False, isGenerating = False,
       error = None \<rparr>"

definition generateHeadings :: "exn + HeadingsGenerationResponse \<Rightarrow> component \<Rightarrow> component" where
  "generateHeadings result st =
     (case result of
        Inr response \<Rightarrow>
          st \<lparr> error_message := None, headingsResponse := Some response,
               h2Contents := map initial_section (h2_headings (seo_content response)),
               generationStep := StepHeadings \<rparr>
      | Inl err \<Rightarrow>
          st \<lparr> error_message :=
                 Some (case err of JsError m \<Rightarrow> m | NonError \<Rightarrow> ''Failed to generate headings'') \<rparr>)"

subsection \<open>generateH2Content\<close>

text \<open>
  The function is cut at its \<open>await\<close>. \<open>generateH2Content_request\<close> is the body of the
  \<open>try\<close> up to the call: it returns the request, or the \<open>TypeError\<close> of reading a property
  of \<open>null\<close> or \<open>undefined\<close> (its message is the engine's; the beginning of V8's is
  used). \<open>generateH2Content_settled\<close> is the rest of the \<open>try\<close> together with \<open>catch\<close>
  and \<open>finally\<close>.
\<close>

definition generateH2Content_request ::
  "FormData \<Rightarrow> nat \<Rightarrow> component \<Rightarrow> component \<times> (exn + H2ContentRequest)" where
  "generateH2Content_request formData h2Index st =
     (let st1 = st \<lparr> error_message := None \<rparr>;
          st2 = setH2Contents (map_index h2Index mark_generating) st1;
          currentH2Contents = h2ContentsRef st2;
          currentHeadings = headingsResponseRef st2
      in case currentHeadings of
           None \<Rightarrow> (st2, Inl (JsError ''Cannot read properties of null''))
         | Some hr \<Rightarrow>
             if h2Index < length currentH2Contents
             then (st2, Inr (section_request formData hr currentH2Contents h2Index))
             else (st2, Inl (JsError ''Cannot read properties of undefined'')))"

definition generateH2Content_catch :: "exn \<Rightarrow> nat \<Rightarrow> component \<Rightarrow> component" where
  "generateH2Content_catch err h2Index st =
     (let errorMessage = errorMessage_of err;
          st1 = setH2Contents (map_index h2Index (mark_failed errorMessage)) st
      in st1 \<lparr> error_message := Some errorMessage \<rparr>)"

definition generateH2Content_finally :: "component \<Rightarrow> component" where
  "generateH2Content_finally st = st \<lparr> generationInProgressRef := False \<rparr>"

definition generateH2Content_settled :: "api_result \<Rightarrow> nat \<Rightarrow> component \<Rightarrow> component" where
  "generateH2Content_settled result h2Index st =
     generateH2Content_finally
       (case result of
          Resolved response \<Rightarrow> setH2Contents (map_index h2Index (mark_generated response)) st
        | Rejected err \<Rightarrow> generateH2Content_catch err h2Index st)"

text \<open>
  The whole function, with the remote generator as a parameter: \<open>api n request\<close> is how
  the call settles that is made when \<open>n\<close> calls have been made before.
\<close>

definition generateH2Content ::
  "(nat \<Rightarrow> H2ContentRequest \<Rightarrow> api_result) \<Rightarrow> FormData \<Rightarrow> nat \<Rightarrow> component \<Rightarrow> component" where
  "generateH2Content api formData h2Index st =
     (if generationInProgressRef st then st
      else
        (case generateH2Content_request formData h2Index
                (st \<lparr> generationInProgressRef := True \<rparr>) of
           (st1, Inl err) \<Rightarrow> generateH2Content_finally (generateH2Content_catch err h2Index st1)
         | (st1, Inr request) \<Rightarrow>
             generateH2Content_settled (api (length (requests st1)) request) h2Index
               (log_request h2Index request st1)))"

subsection \<open>generateAllH2Contents\<close>

definition bulk_failure_message :: string where
  "bulk_failure_message = ''Failed to generate all content. Please try again.''"

text \<open>
  The \<open>for\<close> loop from index \<open>i\<close> on, over the local copy \<open>currentH2Contents\<close>. It returns
  the state and the exception that the inner \<open>catch\<close> rethrows, if there is one. The pause
  of 500 ms after a section has no effect on the state.
\<close>

function generateAll_loop ::
  "(nat \<Rightarrow> H2ContentRequest \<Rightarrow> api_result) \<Rightarrow> FormData \<Rightarrow> HeadingsGenerationResponse
     \<Rightarrow> H2ContentData list \<Rightarrow> nat \<Rightarrow> component \<Rightarrow> component \<times> exn option" where
  "generateAll_loop api formData currentHeadings currentH2Contents i st =
     (if i < length currentH2Contents then
        (if \<not> isGenerated (currentH2Contents ! i) then
           (let st1 = setH2Contents (map_index i mark_generating) st;
                request = section_request formData currentHeadings currentH2Contents i;
                result = api (length (requests st1)) request;
                st2 = log_request i request st1
            in case result of
                 Resolved response \<Rightarrow>
                   generateAll_loop api formData currentHeadings
                     (currentH2Contents[i := mark_generated response (currentH2Contents ! i)])
                     (i + 1)
                     (setH2Contents (map_index i (mark_generated response)) st2)
               | Rejected err \<Rightarrow>
                   (setH2Contents (map_index i (mark_failed (errorMessage_of err))) st2,
                    Some err))
         else generateAll_loop api formData currentHeadings currentH2Contents (i + 1) st)
      else (st, None))"
  by pat_completeness auto
termination
  by (relation "measure (\<lambda>(api, formData, hr, cur, i, st). length cur - i)") auto

definition generateAll_catch :: "component \<Rightarrow> component" where
  "generateAll_catch st = st \<lparr> error_message := Some bulk_failure_message \<rparr>"

definition generateAll_finally :: "component \<Rightarrow> component" where
  "generateAll_finally st =
     st \<lparr> isGeneratingAllRef := False, generationInProgressRef := False,
          isGeneratingAll := False \<rparr>"

definition generateAll_enter :: "component \<Rightarrow> component" where
  "generateAll_enter st =
     st \<lparr> isGeneratingAllRef := True, generationInProgressRef := True,
          isGeneratingAll := True \<rparr>"

definition generateAllH2Contents ::
  "(nat \<Rightarrow> H2ContentRequest \<Rightarrow> api_result) \<Rightarrow> FormData \<Rightarrow> component \<Rightarrow> component" where
  "generateAllH2Contents api formData st =
     (if isGeneratingAllRef st \<or> isGeneratingAll st \<or> generationInProgressRef st then st
      else
        (let st1 = generateAll_enter st;
             currentHeadings = headingsResponseRef st1;
             currentH2Contents = h2ContentsRef st1
         in generateAll_finally
              (case currentHeadings of
                 None \<Rightarrow> generateAll_catch st1
               | Some hr \<Rightarrow>
                   if list_all isGenerated currentH2Contents
                   then st1 \<lparr> generationStep := StepContent \<rparr>
                   else
                     (case generateAll_loop api formData hr currentH2Contents 0 st1 of
                        (st2, None) \<Rightarrow> st2 \<lparr> generationStep := StepContent \<rparr>
                      | (st2, Some err) \<Rightarrow> generateAll_catch st2))))"

subsection \<open>The functions as interleaved tasks\<close>

text \<open>
  An invocation runs up to its first \<open>await\<close> and leaves a suspended task; the task goes
  on when its promise settles. A task of \<open>generateH2Content\<close> waits for the response for
  one section; a task of \<open>generateAllH2Contents\<close> waits for a response or for the timer of
  its pause, and holds the locals of the loop. A task that waits for a response names its
  request.
\<close>

datatype task =
    SectionCall nat H2ContentRequest
  | BulkCall FormData HeadingsGenerationResponse "H2ContentData list" nat H2ContentRequest
  | BulkPause FormData HeadingsGenerationResponse "H2ContentData list" nat

definition generateH2Content_invoke ::
  "FormData \<Rightarrow> nat \<Rightarrow> component \<Rightarrow> component \<times> task option" where
  "generateH2Content_invoke formData h2Index st =
     (if generationInProgressRef st then (st, None)
      else
        (case generateH2Content_request formData h2Index
                (st \<lparr> generationInProgressRef := True \<rparr>) of
           (st1, Inl err) \<Rightarrow>
             (generateH2Content_finally (generateH2Content_catch err h2Index st1), None)
         | (st1, Inr request) \<Rightarrow> (log_request h2Index request st1, Some (SectionCall h2Index request))))"

text \<open>The loop from index \<open>i\<close> up to its next call, or to the end of the function.\<close>

function bulk_continue ::
  "FormData \<Rightarrow> HeadingsGenerationResponse \<Rightarrow> H2ContentData list \<Rightarrow> nat \<Rightarrow> component
     \<Rightarrow> component \<times> task option" where
  "bulk_continue formData currentHeadings currentH2Contents i st =
     (if i < length currentH2Contents then
        (if \<not> isGenerated (currentH2Contents ! i) then
           (let st1 = setH2Contents (map_index i mark_generating) st;
                request = section_request formData currentHeadings currentH2Contents i
            in (log_request i request st1,
                Some (BulkCall formData currentHeadings currentH2Contents i request)))
         else bulk_continue formData currentHeadings currentH2Contents (i + 1) st)
      else (generateAll_finally (st \<lparr> generationStep := StepContent \<rparr>), None))"
  by pat_completeness auto
termination
  by (relation "measure (\<lambda>(formData, hr, cur, i, st). length cur - i)") auto

definition generateAllH2Contents_invoke ::
  "FormData \<Rightarrow> component \<Rightarrow> component \<times> task option" where
  "generateAllH2Contents_invoke formData st =
     (if isGeneratingAllRef st \<or> isGeneratingAll st \<or> generationInProgressRef st
      then (st, None)
      else
        (let st1 = generateAll_enter st;
             currentHeadings = headingsResponseRef st1;
             currentH2Contents = h2ContentsRef st1
         in case currentHeadings of
              None \<Rightarrow> (generateAll_finally (generateAll_catch st1), None)
            | Some hr \<Rightarrow>
                if list_all isGenerated currentH2Contents
                then (generateAll_finally (st1 \<lparr> generationStep := StepContent \<rparr>), None)
                else bulk_continue formData hr currentH2Contents 0 st1))"

definition bulk_settled ::
  "FormData \<Rightarrow> HeadingsGenerationResponse \<Rightarrow> H2ContentData list \<Rightarrow> nat \<Rightarrow> api_result
     \<Rightarrow> component \<Rightarrow> component \<times> task option" where
  "bulk_settled formData currentHeadings currentH2Contents i result st =
     (case result of
        Resolved response \<Rightarrow>
          (setH2Contents (map_index i (mark_generated response)) st,
           Some (BulkPause formData currentHeadings
                   (currentH2Contents[i := mark_generated response (currentH2Contents ! i)]) i))
      | Rejected err \<Rightarrow>
          (generateAll_finally
             (generateAll_catch
                (setH2Contents (map_index i (mark_failed (errorMessage_of err))) st)),
           None))"

text \<open>
  What can happen on the page: the two buttons are pressed, the request of the \<open>k\<close>-th
  suspended task settles, the timer of the \<open>k\<close>-th suspended task fires, the component
  renders.
\<close>

datatype event =
    ClickGenerate FormData nat
  | ClickGenerateAll FormData
  | Settle nat api_result
  | Timeout nat
  | Render

definition spawn :: "task option \<Rightarrow> task list \<Rightarrow> task list" where
  "spawn t ts = ts @ (case t of None \<Rightarrow> [] | Some t' \<Rightarrow> [t'])"

definition replace_task :: "nat \<Rightarrow> task option \<Rightarrow> task list \<Rightarrow> task list" where
  "replace_task k t ts = take k ts @ (case t of None \<Rightarrow> [] | Some t' \<Rightarrow> [t']) @ drop (Suc k) ts"

fun fire :: "event \<Rightarrow> component \<times> task list \<Rightarrow> component \<times> task list" where
  "fire (ClickGenerate formData i) (st, ts) =
     (case generateH2Content_invoke formData i st of (st', t) \<Rightarrow> (st', spawn t ts))"
| "fire (ClickGenerateAll formData) (st, ts) =
     (case generateAllH2Contents_invoke formData st of (st', t) \<Rightarrow> (st', spawn t ts))"
| "fire (Settle k result) (st, ts) =
     (if k < length ts then
        (case ts ! k of
           SectionCall i request \<Rightarrow>
             (generateH2Content_settled result i st, replace_task k None ts)
         | BulkCall formData hr cur i request \<Rightarrow>
             (case bulk_settled formData hr cur i result st of
                (st', t) \<Rightarrow> (st', replace_task k t ts))
         | BulkPause formData hr cur i \<Rightarrow> (st, ts))
      else (st, ts))"
| "fire (Timeout k) (st, ts) =
     (if k < length ts then
        (case ts ! k of
           BulkPause formData hr cur i \<Rightarrow>
             (case bulk_continue formData hr cur (i + 1) st of
                (st', t) \<Rightarrow> (st', replace_task k t ts))
         | SectionCall i request \<Rightarrow> (st, ts)
         | BulkCall formData hr cur i request \<Rightarrow> (st, ts))
      else (st, ts))"
| "fire Render (st, ts) = (sync_refs st, ts)"

fun run_events :: "event list \<Rightarrow> component \<times> task list \<Rightarrow> component \<times> task list" where
  "run_events [] p = p"
| "run_events (e # es) p = run_events es (fire e p)"

text \<open>The suspended tasks whose generation request is in flight.\<close>

fun awaits_response :: "task \<Rightarrow> bool" where
  "awaits_response (SectionCall i request) = True"
| "awaits_response (BulkCall formData hr cur i request) = True"
| "awaits_response (BulkPause formData hr cur i) = False"

definition in_flight :: "task list \<Rightarrow> nat" where
  "in_flight ts = length (filter awaits_response ts)"

subsection \<open>Concrete inputs\<close>

definition example_headings :: HeadingsGenerationResponse where
  "example_headings =
     \<lparr> seo_content =
         \<lparr> h1_heading = ''Coffee Brewing'', h2_headings = [''Pour Over'', ''Espresso''],
           meta_description = ''How to brew'', seo_slug = ''coffee-brewing'' \<rparr> \<rparr>"

definition example_form :: FormData where
  "example_form =
     \<lparr> topic = ''coffee brewing'', form_keywords = ''pour over, espresso'', tone = Professional \<rparr>"

text \<open>The component after the headings have arrived and it has rendered.\<close>

definition example_component :: component where
  "example_component = sync_refs (generateHeadings (Inr example_headings) initial_component)"

text \<open>A generator that answers every request, one that answers none, one that answers
  with an empty text, and one that answers only the first request made.\<close>

definition api_ok :: "nat \<Rightarrow> H2ContentRequest \<Rightarrow> api_result" where
  "api_ok n request =
     Resolved \<lparr> generated_content = ''Text on '' @ h2_heading request, word_count = 3 \<rparr>"

definition api_down :: "nat \<Rightarrow> H2ContentRequest \<Rightarrow> api_result" where
  "api_down n request = Rejected (JsError ''Network Error'')"

definition api_empty :: "nat \<Rightarrow> H2ContentRequest \<Rightarrow> api_result" where
  "api_empty n request = Resolved \<lparr> generated_content = [], word_count = 0 \<rparr>"


text \<open>A record used as a concrete input.\<close>

definition example_article :: "string \<Rightarrow> ClientArticleMetadata" where
  "example_article s =
     \<lparr> title = Some ''Pour Over'', slug = s, art_topic = ''coffee'',
       art_keywords = [''espresso''],
       art_tone = ''professional'', art_wordCount = 2, readabilityScore = 70, seoScore = None,
       createdAt = ''2024-01-01T00:00:00.000Z'', updatedAt = ''2024-01-01T00:00:00.000Z'',
       art_content = Some ''# Pour Over'', metaDescription = Some [] \<rparr>"

section \<open>Auxiliary notions for the proofs\<close>

text \<open>In an isolated string every separator is a hyphen that no separator follows.\<close>

fun isolated :: "string \<Rightarrow> bool" where
  "isolated [] = True"
| "isolated (c # cs) =
     ((is_sep c \<longrightarrow> c = hyphen \<and> (cs = [] \<or> \<not> is_sep (hd cs))) \<and> isolated cs)"

text \<open>The invariant of the page: at most one task is suspended, and while one is, the
  in-flight flag is set.\<close>

definition single_flight :: "component \<times> task list \<Rightarrow> bool" where
  "single_flight p =
     (length (snd p) \<le> 1 \<and> (snd p \<noteq> [] \<longrightarrow> generationInProgressRef (fst p)))"

text \<open>The state of the component after the request for section \<open>i\<close> has been logged, after
  its response has been applied, and after its rejection has been recorded.\<close>

definition after_request :: "nat \<Rightarrow> H2ContentRequest \<Rightarrow> component \<Rightarrow> component" where
  "after_request i request st =
     log_request i request (setH2Contents (map_index i mark_generating) st)"

definition after_resolved ::
  "nat \<Rightarrow> H2ContentRequest \<Rightarrow> H2ContentResponse \<Rightarrow> component \<Rightarrow> component" where
  "after_resolved i request response st =
     setH2Contents (map_index i (mark_generated response)) (after_request i request st)"

definition after_rejected :: "nat \<Rightarrow> H2ContentRequest \<Rightarrow> exn \<Rightarrow> component \<Rightarrow> component" where
  "after_rejected i request err st =
     setH2Contents (map_index i (mark_failed (errorMessage_of err))) (after_request i request st)"

text \<open>The guard at the entry of \<open>generateAllH2Contents\<close>.\<close>

definition blocked :: "component \<Rightarrow> bool" where
  "blocked st = (isGeneratingAllRef st \<or> isGeneratingAll st \<or> generationInProgressRef st)"

declare bulk_continue.simps [simp del]
declare generateAll_loop.simps [simp del]

text \<open>
  The suspended task goes on with the answer of the generator \<open>api\<close> (or with its timer),
  and \<open>drive\<close> repeats this until no task is left: an invocation run to its end without
  any other event in between.
\<close>

definition settle_task ::
  "(nat \<Rightarrow> H2ContentRequest \<Rightarrow> api_result) \<Rightarrow> task \<Rightarrow> component \<Rightarrow> component \<times> task option" where
  "settle_task api t st =
     (case t of
        SectionCall i request \<Rightarrow>
          (generateH2Content_settled (api (length (requests st) - 1) request) i st, None)
      | BulkCall formData hr cur i request \<Rightarrow>
          bulk_settled formData hr cur i (api (length (requests st) - 1) request) st
      | BulkPause formData hr cur i \<Rightarrow> bulk_continue formData hr cur (i + 1) st)"

fun task_size :: "task option \<Rightarrow> nat" where
  "task_size None = 0"
| "task_size (Some (SectionCall i request)) = 1"
| "task_size (Some (BulkCall formData hr cur i request)) = 2 * (length cur - i) + 2"
| "task_size (Some (BulkPause formData hr cur i)) = 2 * (length cur - i) + 1"

function drive ::
  "(nat \<Rightarrow> H2ContentRequest \<Rightarrow> api_result) \<Rightarrow> component \<times> task option \<Rightarrow> component" where
  "drive api (st, None) = st"
| "drive api (st, Some t) = drive api (settle_task api t st)"
  by pat_completeness auto
termination
proof (relation "measure (\<lambda>(api, st, t). task_size t)")
  show "wf (measure (\<lambda>(api, st, t). task_size t))" by simp
next
  fix api st t
  have cont: "\<exists>j request. u = BulkCall formData hr cur j request \<and> i \<le> j \<and> j < length cur"
    if "bulk_continue formData hr cur i st = (st', Some u)" for formData hr cur i st st' u
    using that
  proof (induction formData hr cur i st rule: bulk_continue.induct)
    case (1 formData hr cur i st)
    note eq = bulk_continue.simps [of formData hr cur i st]
    show ?case
    proof (cases "i < length cur")
      case False
      with 1(2) eq show ?thesis by simp
    next
      case True
      show ?thesis
      proof (cases "isGenerated (cur ! i)")
        case g: True
        with True 1(2) eq
        have "bulk_continue formData hr cur (i + 1) st = (st', Some u)" by simp
        from 1(1) [OF True _ this] g
        obtain j request where "u = BulkCall formData hr cur j request" "i + 1 \<le> j" "j < length cur"
          by auto
        then show ?thesis by auto
      next
        case False
        with True 1(2) eq show ?thesis by (auto simp: Let_def)
      qed
    qed
  qed
  obtain st' t' where r: "settle_task api t st = (st', t')"
    by (cases "settle_task api t st")
  have "task_size t' < task_size (Some t)"
  proof (cases t)
    case (SectionCall i request)
    with r show ?thesis by (auto simp: settle_task_def)
  next
    case (BulkCall formData hr cur i request)
    with r show ?thesis
      by (auto simp: settle_task_def bulk_settled_def split: api_result.splits)
  next
    case (BulkPause formData hr cur i)
    show ?thesis
    proof (cases t')
      case None
      with BulkPause show ?thesis by simp
    next
      case (Some u)
      with r BulkPause have "bulk_continue formData hr cur (i + 1) st = (st', Some u)"
        by (simp add: settle_task_def)
      from cont [OF this] obtain j request where
        "u = BulkCall formData hr cur j request" "i + 1 \<le> j" "j < length cur"
        by auto
      with Some BulkPause show ?thesis by simp
    qed
  qed
  with r
  show "((api, settle_task api t st), (api, st, Some t)) \<in> measure (\<lambda>(api, st, t). task_size t)"
    by simp
qed

section \<open>Properties of createSlug\<close>

lemma code_lower_char:
  "code (lower_char c) =
     (if (65 \<le> code c \<and> code c \<le> 90) \<or> (192 \<le> code c \<and> code c \<le> 222 \<and> code c \<noteq> 215)
      then code c + 32 else code c)"
  by (auto simp: lower_char_def code_def)

lemma code_inj: "code c = code d \<Longrightarrow> c = d"
  unfolding code_def by (metis char_of_char)

lemma code_underscore: "code CHR ''_'' = 95" by (simp add: code_def)
lemma code_hyphen: "code hyphen = 45" by (simp add: code_def hyphen_def)

lemma is_word_lower_char:
  "is_word (lower_char c) \<Longrightarrow> is_lower_alnum (lower_char c) \<or> is_sep (lower_char c)"
proof -
  assume w: "is_word (lower_char c)"
  have "code (lower_char c) = 95 \<Longrightarrow> lower_char c = CHR ''_''"
    using code_inj [of "lower_char c" "CHR ''_''"] by (simp add: code_underscore)
  with w show ?thesis
    unfolding is_word_def is_lower_alnum_def is_sep_def code_lower_char
    by (auto split: if_splits)
qed

lemma lower_alnum_not_sep: "is_lower_alnum c \<Longrightarrow> \<not> is_sep c"
  by (auto simp: is_lower_alnum_def is_sep_def is_space_def code_underscore code_hyphen)

lemma remove_special_chars:
  "c \<in> set (remove_special (toLowerCase t)) \<Longrightarrow> is_lower_alnum c \<or> is_sep c"
  by (auto simp: remove_special_def toLowerCase_def is_sep_def dest: is_word_lower_char)

lemma collapse_chars:
  "c \<in> set (collapse_separators s) \<Longrightarrow> c = hyphen \<or> (c \<in> set s \<and> \<not> is_sep c)"
proof (induction s arbitrary: c rule: collapse_separators.induct)
  case 1
  then show ?case by simp
next
  case (2 d ds)
  then show ?case
    by (auto split: if_splits dest: set_dropWhileD)
qed

lemma hd_collapse:
  "s \<noteq> [] \<Longrightarrow> \<not> is_sep (hd s) \<Longrightarrow> collapse_separators s \<noteq> [] \<and> hd (collapse_separators s) = hd s"
  by (cases s) auto

lemma collapse_Nil: "collapse_separators s = [] \<longleftrightarrow> s = []"
  by (cases s) auto

lemma isolated_collapse: "isolated (collapse_separators s)"
proof (induction s rule: collapse_separators.induct)
  case 1
  then show ?case by simp
next
  case (2 c cs)
  show ?case
  proof (cases "is_sep c")
    case True
    let ?r = "dropWhile is_sep cs"
    have "collapse_separators ?r = [] \<or> \<not> is_sep (hd (collapse_separators ?r))"
    proof (cases "?r = []")
      case True
      then show ?thesis by (simp only: collapse_separators.simps simp_thms)
    next
      case False
      then have "\<not> is_sep (hd ?r)" by (rule hd_dropWhile)
      with False show ?thesis using hd_collapse [of ?r] by metis
    qed
    with True 2 show ?thesis by simp
  next
    case False
    with 2 show ?thesis by simp
  qed
qed

lemma collapse_isolated: "isolated s \<Longrightarrow> collapse_separators s = s"
proof (induction s rule: collapse_separators.induct)
  case 1
  then show ?case by simp
next
  case (2 c cs)
  show ?case
  proof (cases "is_sep c")
    case True
    with 2 have "dropWhile is_sep cs = cs"
      by (cases cs) auto
    with True 2 show ?thesis by simp
  next
    case False
    with 2 show ?thesis by simp
  qed
qed

lemma isolated_append: "isolated (xs @ ys) \<Longrightarrow> isolated xs \<and> isolated ys"
  by (induction xs) (auto simp: hd_append split: if_splits)

lemma trim_hyphens_decomp:
  "\<exists>p q. s = p @ trim_hyphens s @ q"
proof -
  let ?u = "dropWhile (\<lambda>c. c = hyphen) s"
  have a: "s = takeWhile (\<lambda>c. c = hyphen) s @ ?u" by simp
  have "rev ?u = takeWhile (\<lambda>c. c = hyphen) (rev ?u) @ dropWhile (\<lambda>c. c = hyphen) (rev ?u)"
    by simp
  then have "?u = trim_hyphens s @ rev (takeWhile (\<lambda>c. c = hyphen) (rev ?u))"
    unfolding trim_hyphens_def by (metis rev_append rev_rev_ident)
  with a show ?thesis by metis
qed

lemma isolated_trim: "isolated s \<Longrightarrow> isolated (trim_hyphens s)"
  using trim_hyphens_decomp [of s] isolated_append by metis

lemma set_trim: "set (trim_hyphens s) \<subseteq> set s"
  using trim_hyphens_decomp [of s] by (metis Un_upper1 Un_upper2 set_append subset_trans)

lemma last_dropWhile: "dropWhile P xs \<noteq> [] \<Longrightarrow> last (dropWhile P xs) = last xs"
  by (induction xs) (auto split: if_splits)

lemma trim_ends:
  "trim_hyphens s = [] \<or> (hd (trim_hyphens s) \<noteq> hyphen \<and> last (trim_hyphens s) \<noteq> hyphen)"
proof (cases "trim_hyphens s = []")
  case True
  then show ?thesis by simp
next
  case False
  let ?u = "dropWhile (\<lambda>c. c = hyphen) s"
  let ?v = "dropWhile (\<lambda>c. c = hyphen) (rev ?u)"
  from False have v: "?v \<noteq> []" by (simp add: trim_hyphens_def)
  have u: "?u \<noteq> []"
  proof
    assume "?u = []"
    then have "?v = []" by (simp only: rev.simps dropWhile.simps)
    with v show False by blast
  qed
  have "hd ?v \<noteq> hyphen" using v hd_dropWhile [of "\<lambda>c. c = hyphen" "rev ?u"] by simp
  then have l: "last (trim_hyphens s) \<noteq> hyphen"
    using v by (simp add: trim_hyphens_def last_rev)
  have "last ?v = last (rev ?u)" using v by (rule last_dropWhile)
  also have "\<dots> = hd ?u" using u by (simp add: last_rev)
  finally have "last ?v \<noteq> hyphen"
    using u hd_dropWhile [of "\<lambda>c. c = hyphen" s] by simp
  then have "hd (trim_hyphens s) \<noteq> hyphen"
    using v by (simp add: trim_hyphens_def hd_rev)
  with l show ?thesis by simp
qed

lemma trim_fixed:
  "s = [] \<or> (hd s \<noteq> hyphen \<and> last s \<noteq> hyphen) \<Longrightarrow> trim_hyphens s = s"
proof (cases "s = []")
  case True
  then show ?thesis by (simp add: trim_hyphens_def)
next
  case False
  assume "s = [] \<or> (hd s \<noteq> hyphen \<and> last s \<noteq> hyphen)"
  with False have h: "hd s \<noteq> hyphen" and l: "last s \<noteq> hyphen" by auto
  from h False have a: "dropWhile (\<lambda>c. c = hyphen) s = s"
    by (simp add: dropWhile_eq_self_iff)
  from l False have "dropWhile (\<lambda>c. c = hyphen) (rev s) = rev s"
    by (simp add: dropWhile_eq_self_iff hd_rev)
  with a show ?thesis by (simp add: trim_hyphens_def)
qed

lemma lower_fixed: "\<forall>c \<in> set s. is_lower_alnum c \<or> c = hyphen \<Longrightarrow> toLowerCase s = s"
  unfolding toLowerCase_def
  by (rule map_idI) (auto simp: lower_char_def is_lower_alnum_def code_hyphen)

lemma remove_fixed: "\<forall>c \<in> set s. is_lower_alnum c \<or> c = hyphen \<Longrightarrow> remove_special s = s"
  unfolding remove_special_def
  by (auto simp: filter_id_conv is_word_def is_lower_alnum_def)

lemma createSlug_chars: "c \<in> set (createSlug t) \<Longrightarrow> is_lower_alnum c \<or> c = hyphen"
proof -
  assume "c \<in> set (createSlug t)"
  then have "c \<in> set (collapse_separators (remove_special (toLowerCase t)))"
    using set_trim unfolding createSlug_def by blast
  then show ?thesis
    using collapse_chars remove_special_chars by blast
qed

lemma filter_lower_cong:
  "filter (\<lambda>c. is_word c \<or> is_space c \<or> c = hyphen) (map lower_char t) =
   filter (\<lambda>c. is_lower_alnum c \<or> c = CHR ''_'' \<or> is_space c \<or> c = hyphen) (map lower_char t)"
proof (rule filter_cong [OF refl])
  fix c assume "c \<in> set (map lower_char t)"
  then obtain d where c: "c = lower_char d" by auto
  have "is_word (lower_char d) \<longleftrightarrow> is_lower_alnum (lower_char d) \<or> lower_char d = CHR ''_''"
  proof
    assume "is_word (lower_char d)"
    then show "is_lower_alnum (lower_char d) \<or> lower_char d = CHR ''_''"
      using code_inj [of "lower_char d" "CHR ''_''"]
      unfolding is_word_def is_lower_alnum_def code_lower_char
      by (auto simp: code_underscore split: if_splits)
  next
    assume "is_lower_alnum (lower_char d) \<or> lower_char d = CHR ''_''"
    then show "is_word (lower_char d)"
      by (auto simp: is_word_def is_lower_alnum_def code_underscore)
  qed
  with c show "(is_word c \<or> is_space c \<or> c = hyphen) =
      (is_lower_alnum c \<or> c = CHR ''_'' \<or> is_space c \<or> c = hyphen)"
    by auto
qed

lemma collapse_all_sep:
  assumes "\<forall>c \<in> set s. is_sep c"
  shows "collapse_separators s = (if s = [] then [] else [hyphen])"
proof (cases s)
  case Nil
  then show ?thesis by simp
next
  case (Cons c cs)
  with assms have "dropWhile is_sep cs = []" by simp
  then have "collapse_separators (dropWhile is_sep cs) = []"
    by (simp only: collapse_separators.simps)
  with assms Cons show ?thesis by simp
qed

lemma trim_single_hyphen: "trim_hyphens [hyphen] = []" "trim_hyphens [] = []"
  by (simp_all add: trim_hyphens_def)

lemma symbol_only_all_sep:
  assumes "\<forall>c \<in> set t. \<not> is_alnum c"
  shows "\<forall>c \<in> set (remove_special (toLowerCase t)). is_sep c"
proof
  fix c assume c: "c \<in> set (remove_special (toLowerCase t))"
  then obtain d where d: "d \<in> set t" "c = lower_char d"
    by (auto simp: remove_special_def toLowerCase_def)
  with assms have "\<not> is_alnum d" by blast
  then have "\<not> is_lower_alnum (lower_char d)"
    unfolding is_alnum_def is_lower_alnum_def code_lower_char
    by (auto split: if_splits)
  with c d show "is_sep c" using remove_special_chars by blast
qed

text \<open>
  C6, as amended: \<open>createSlug\<close> lowercases, strips every character that is not a-z, 0-9,
  underscore, white space or hyphen, collapses each run of white space, underscores and
  hyphens into one hyphen and trims the hyphens at both ends; it maps "Hello, World!" to
  "hello-world" and "  ---Already-Slug---  " to "already-slug", and the empty string and
  every string without a letter or digit to the empty string.
\<close>

theorem createSlug_algorithm:
  "createSlug t = slugify_keep_underscore t
   \<and> createSlug ''Hello, World!'' = ''hello-world''
   \<and> createSlug ''  ---Already-Slug---  '' = ''already-slug''
   \<and> createSlug [] = []
   \<and> ((\<forall>c \<in> set t. \<not> is_alnum c) \<longrightarrow> createSlug t = [])"
proof -
  have a: "createSlug t = slugify_keep_underscore t"
    by (simp add: createSlug_def slugify_keep_underscore_def remove_special_def
        toLowerCase_def filter_lower_cong)
  have b: "createSlug ''Hello, World!'' = ''hello-world''"
    by code_simp
  have c: "createSlug ''  ---Already-Slug---  '' = ''already-slug''"
    by code_simp
  have d: "createSlug [] = []"
    by code_simp
  have e: "createSlug t = []" if h: "\<forall>c \<in> set t. \<not> is_alnum c"
  proof -
    let ?r = "remove_special (toLowerCase t)"
    have "collapse_separators ?r = (if ?r = [] then [] else [hyphen])"
      using symbol_only_all_sep [OF h] by (rule collapse_all_sep)
    then show ?thesis
      by (simp add: createSlug_def trim_single_hyphen)
  qed
  from a b c d e show ?thesis by blast
qed

theorem createSlug_algorithm_witness:
  "list_all (\<lambda>c. \<not> is_alnum c) ''?! _'' \<and> createSlug ''?! _'' = []"
proof -
  have h: "\<forall>c \<in> set ''?! _''. \<not> is_alnum c"
    by (simp add: is_alnum_def code_def)
  with createSlug_algorithm [of "''?! _''"] have "createSlug ''?! _'' = []" by blast
  with h show ?thesis by (simp add: list_all_iff)
qed

text \<open>
  C6 as stated fails: the stripping step of the specification deletes the underscore, the
  one of \<open>createSlug\<close> keeps it (\<open>\w\<close> contains it) and the next step turns it into a hyphen.
\<close>

theorem createSlug_spec_counterexample:
  "createSlug ''a_b'' = ''a-b'' \<and> slugify_spec ''a_b'' = ''ab''
   \<and> createSlug ''a_b'' \<noteq> slugify_spec ''a_b''"
  by code_simp

text \<open>C7: \<open>createSlug\<close> is idempotent.\<close>

theorem createSlug_idempotent: "createSlug (createSlug x) = createSlug x"
proof -
  let ?y = "createSlug x"
  have chars: "\<forall>c \<in> set ?y. is_lower_alnum c \<or> c = hyphen"
    using createSlug_chars by blast
  have iso: "isolated ?y"
    unfolding createSlug_def by (rule isolated_trim) (rule isolated_collapse)
  have ends: "?y = [] \<or> (hd ?y \<noteq> hyphen \<and> last ?y \<noteq> hyphen)"
    unfolding createSlug_def by (rule trim_ends)
  have "createSlug ?y = trim_hyphens (collapse_separators ?y)"
    using chars by (simp add: createSlug_def [of ?y] lower_fixed remove_fixed)
  also have "\<dots> = trim_hyphens ?y" using iso by (simp add: collapse_isolated)
  also have "\<dots> = ?y" using ends by (rule trim_fixed)
  finally show ?thesis .
qed

section \<open>Properties of the local backend\<close>

lemma findIndex_negative: "findIndex P xs < 0 \<longleftrightarrow> (\<forall>x \<in> set xs. \<not> P x)"
  by (induction xs) (auto simp: Let_def)

text \<open>
  C8: updating a slug that the stored collection does not hold fails (the function
  returns \<open>false\<close>) and leaves the storage as it was.
\<close>

theorem updateClientArticle_missing_slug:
  "s \<notin> stored_slugs st \<Longrightarrow> updateClientArticle now s updates st = (st, Inr False)"
proof (cases st)
  case None
  then show ?thesis
    by (simp add: updateClientArticle_def updateClientArticle_try_def)
next
  case (Some v)
  assume absent: "s \<notin> stored_slugs st"
  show ?thesis
  proof (cases v)
    case Unparsable
    with Some show ?thesis
      by (simp add: updateClientArticle_def updateClientArticle_try_def JSON_parse_def)
  next
    case (Collection articles)
    with Some absent have "findIndex (\<lambda>article. slug article = s) articles < 0"
      by (auto simp: findIndex_negative stored_slugs_def)
    with Some Collection show ?thesis
      by (simp add: updateClientArticle_def updateClientArticle_try_def JSON_parse_def)
  qed
qed

theorem updateClientArticle_missing_slug_witness:
  "''b'' \<notin> stored_slugs (Some (Collection [example_article ''a'']))
   \<and> updateClientArticle ''2024-02-02'' ''b''
        \<lparr> upd_content = Some (Some ''x''), upd_title = Some None,
          upd_metaDescription = Some None \<rparr>
        (Some (Collection [example_article ''a'']))
     = (Some (Collection [example_article ''a'']), Inr False)"
proof -
  have h: "''b'' \<notin> stored_slugs (Some (Collection [example_article ''a'']))"
    by (simp add: stored_slugs_def example_article_def)
  from h updateClientArticle_missing_slug [OF h] show ?thesis by simp
qed

text \<open>
  C9 at a slug that the collection does not hold: \<open>deleteClientArticle\<close> writes the
  collection back and returns \<open>true\<close>.
\<close>

theorem deleteClientArticle_absent_slug_returns_true:
  "deleteClientArticle ''b'' (Some (Collection [example_article ''a'']))
     = (Some (Collection [example_article ''a'']), Inr True)"
  by (simp add: deleteClientArticle_def deleteClientArticle_try_def JSON_parse_def
      JSON_stringify_def example_article_def)

text \<open>
  C10: with the storage key absent or holding a text that is not valid JSON,
  \<open>getClientArticles\<close> returns the empty list and \<open>getClientArticleBySlug\<close> returns
  \<open>null\<close>; in every state of the key both return a value and do not throw.
\<close>

theorem local_reads_total:
  "getClientArticles array_sort getTime None = Inr []
   \<and> getClientArticles array_sort getTime (Some Unparsable) = Inr []
   \<and> getClientArticleBySlug s None = Inr None
   \<and> getClientArticleBySlug s (Some Unparsable) = Inr None
   \<and> (\<exists>r. getClientArticles array_sort getTime st = Inr r)
   \<and> (\<exists>r. getClientArticleBySlug s st = Inr r)"
  by (simp add: getClientArticles_def getClientArticles_try_def getClientArticleBySlug_def
      getClientArticleBySlug_try_def JSON_parse_def split: option.splits stored.splits sum.splits)

section \<open>Properties of the generator\<close>

lemma length_map_index [simp]: "length (map_index i f xs) = length xs"
  by (simp add: map_index_def)

lemma nth_map_index:
  "j < length xs \<Longrightarrow> map_index i f xs ! j = (if j = i then f (xs ! j) else xs ! j)"
  by (simp add: map_index_def nth_enumerate_eq)

lemma join_strings_Cons:
  "join_strings sep (x # xs) = x @ concat (map (\<lambda>y. sep @ y) xs)"
  by (induction xs arbitrary: x) simp_all

text \<open>
  C1, as amended: with the headings fetched, \<open>completeArticle\<close> is the H1 line followed, for
  every section that is generated and has a non-empty content, in the order of the sections,
  by a blank line and the block "## heading, blank line, content"; a section that is not
  generated, or whose content is empty, contributes nothing.
\<close>

theorem completeArticle_blocks:
  "headingsResponse st = Some hr \<Longrightarrow>
   completeArticle st =
     (''# '' @ h1_heading (seo_content hr))
     @ concat (map (\<lambda>h2. blank_line @ ''## '' @ heading h2 @ blank_line @ content h2)
         (filter (\<lambda>h2. isGenerated h2 \<and> content h2 \<noteq> []) (h2Contents st)))"
  by (simp add: completeArticle_def join_strings_Cons render_section_def comp_def)

text \<open>
  C1 as stated fails: after a bulk run in which the generator answered every request with
  an empty text, both sections are generated and the article is the H1 line alone, where
  the specification has a block for each of them.
\<close>

theorem completeArticle_spec_counterexample:
  "list_all isGenerated (h2Contents (generateAllH2Contents api_empty example_form example_component))
   \<and> completeArticle (generateAllH2Contents api_empty example_form example_component) = ''# Coffee Brewing''
   \<and> completeArticle (generateAllH2Contents api_empty example_form example_component)
       \<noteq> assembleArticle_spec (generateAllH2Contents api_empty example_form example_component)"
  by code_simp


theorem completeArticle_blocks_witness:
  "headingsResponse (generateAllH2Contents api_ok example_form example_component) = Some example_headings
   \<and> completeArticle (generateAllH2Contents api_ok example_form example_component) =
        ''# Coffee Brewing'' @ blank_line @ ''## Pour Over'' @ blank_line @ ''Text on Pour Over''
        @ blank_line @ ''## Espresso'' @ blank_line @ ''Text on Espresso''"
proof -
  have h: "headingsResponse (generateAllH2Contents api_ok example_form example_component)
      = Some example_headings"
    by code_simp
  have c: "h2Contents (generateAllH2Contents api_ok example_form example_component) =
     [\<lparr>heading = ''Pour Over'', content = ''Text on Pour Over'', wordCount = 3,
        isGenerated = True, isGenerating = False, error = None\<rparr>,
      \<lparr>heading = ''Espresso'', content = ''Text on Espresso'', wordCount = 3,
        isGenerated = True, isGenerating = False, error = None\<rparr>]"
    by code_simp
  from h completeArticle_blocks [OF h] show ?thesis
    by (simp add: c example_headings_def)
qed

lemma h2Contents_catch:
  "h2Contents (generateH2Content_catch err i st) =
     map_index i (mark_failed (errorMessage_of err)) (h2Contents st)"
  by (simp add: generateH2Content_catch_def setH2Contents_def Let_def)

text \<open>
  C4, as amended: when the call that \<open>generateH2Content\<close> makes for section \<open>i\<close> is
  rejected, section \<open>i\<close> is as before the call except that it carries the error message
  and is not generating; its heading, content, word count and \<open>isGenerated\<close> are kept. So
  it is failed when it had not been generated, and stays generated, with its content, when
  the call was a regeneration. The message is also the error of the session, and every
  other section is unchanged.
\<close>

theorem generateH2Content_failure_frame:
  assumes "\<not> generationInProgressRef st"
      and "headingsResponseRef st = Some hr"
      and "i < length (h2ContentsRef st)"
      and "i < length (h2Contents st)"
      and "api (length (requests st)) (section_request formData hr (h2ContentsRef st) i) = Rejected err"
  shows "length (h2Contents (generateH2Content api formData i st)) = length (h2Contents st)
       \<and> error (h2Contents (generateH2Content api formData i st) ! i) = Some (errorMessage_of err)
       \<and> \<not> isGenerating (h2Contents (generateH2Content api formData i st) ! i)
       \<and> error_message (generateH2Content api formData i st) = Some (errorMessage_of err)
       \<and> (\<forall>j. j < length (h2Contents st) \<and> j \<noteq> i \<longrightarrow>
             h2Contents (generateH2Content api formData i st) ! j = h2Contents st ! j)
       \<and> h2Contents (generateH2Content api formData i st) ! i
           = (h2Contents st ! i) \<lparr> isGenerating := False, error := Some (errorMessage_of err) \<rparr>
       \<and> status_spec (h2Contents (generateH2Content api formData i st) ! i)
           = (if isGenerated (h2Contents st ! i) then Generated else Failed)"
proof -
  have run: "generateH2Content api formData i st =
      generateH2Content_finally (generateH2Content_catch err i
        (log_request i (section_request formData hr (h2ContentsRef st) i)
          (setH2Contents (map_index i mark_generating)
             (st \<lparr> generationInProgressRef := True, error_message := None \<rparr>))))"
    using assms
    by (simp add: generateH2Content_def generateH2Content_request_def Let_def
        generateH2Content_settled_def setH2Contents_def log_request_def)
  have hs: "h2Contents (generateH2Content api formData i st) =
      map_index i (mark_failed (errorMessage_of err)) (map_index i mark_generating (h2Contents st))"
    by (simp add: run generateH2Content_finally_def h2Contents_catch log_request_def
        setH2Contents_def)
  have em: "error_message (generateH2Content api formData i st) = Some (errorMessage_of err)"
    by (simp add: run generateH2Content_finally_def generateH2Content_catch_def Let_def)
  have sec: "h2Contents (generateH2Content api formData i st) ! i
      = (h2Contents st ! i) \<lparr> isGenerating := False, error := Some (errorMessage_of err) \<rparr>"
    using assms(4) by (simp add: hs nth_map_index mark_failed_def mark_generating_def)
  have stat: "status_spec (h2Contents (generateH2Content api formData i st) ! i)
      = (if isGenerated (h2Contents st ! i) then Generated else Failed)"
    by (simp add: sec status_spec_def)
  show ?thesis
    using assms(4) sec stat by (simp add: hs em nth_map_index mark_failed_def)
qed

text \<open>
  C4 as stated fails: section 0 is generated, the component renders, and the call that
  regenerates the section is rejected. The section carries the error message, and it is
  still generated with its content: its status is not failed.
\<close>

theorem generateH2Content_failed_status_counterexample:
  "\<not> generationInProgressRef (sync_refs (generateH2Content api_ok example_form 0 example_component))
   \<and> headingsResponseRef (sync_refs (generateH2Content api_ok example_form 0 example_component))
       = Some example_headings
   \<and> isGenerated
       (h2Contents (sync_refs (generateH2Content api_ok example_form 0 example_component)) ! 0)
   \<and> api_down
        (length (requests (sync_refs (generateH2Content api_ok example_form 0 example_component))))
        (section_request example_form example_headings
           (h2ContentsRef (sync_refs (generateH2Content api_ok example_form 0 example_component))) 0)
       = Rejected (JsError ''Network Error'')
   \<and> error (h2Contents (generateH2Content api_down example_form 0
         (sync_refs (generateH2Content api_ok example_form 0 example_component))) ! 0)
       = Some ''Network Error''
   \<and> isGenerated (h2Contents (generateH2Content api_down example_form 0
         (sync_refs (generateH2Content api_ok example_form 0 example_component))) ! 0)
   \<and> content (h2Contents (generateH2Content api_down example_form 0
         (sync_refs (generateH2Content api_ok example_form 0 example_component))) ! 0)
       = ''Text on Pour Over''
   \<and> status_spec (h2Contents (generateH2Content api_down example_form 0
         (sync_refs (generateH2Content api_ok example_form 0 example_component))) ! 0)
       \<noteq> Failed"
  by code_simp

theorem generateH2Content_failure_frame_witness:
  "error (h2Contents (generateH2Content api_down example_form 1 example_component) ! 1)
     = Some ''Network Error''
   \<and> error_message (generateH2Content api_down example_form 1 example_component)
     = Some ''Network Error''
   \<and> h2Contents (generateH2Content api_down example_form 1 example_component) ! 0
     = h2Contents example_component ! 0
   \<and> status_spec (h2Contents (generateH2Content api_down example_form 1 example_component) ! 1)
     = Failed"
proof -
  have a: "\<not> generationInProgressRef example_component" by code_simp
  have b: "headingsResponseRef example_component = Some example_headings" by code_simp
  have c: "1 < length (h2ContentsRef example_component)" by code_simp
  have d: "1 < length (h2Contents example_component)" by code_simp
  have e: "api_down (length (requests example_component))
      (section_request example_form example_headings (h2ContentsRef example_component) 1)
      = Rejected (JsError ''Network Error'')"
    by (simp add: api_down_def)
  have f: "errorMessage_of (JsError ''Network Error'') = ''Network Error''"
    by (simp add: errorMessage_of_def)
  have g: "(0::nat) < length (h2Contents example_component) \<and> (0::nat) \<noteq> 1"
    by code_simp
  have n: "\<not> isGenerated (h2Contents example_component ! 1)"
    by code_simp
  from generateH2Content_failure_frame
      [where st = example_component and hr = example_headings and i = 1 and api = api_down
         and formData = example_form and err = "JsError ''Network Error''", OF a b c d e] f g n
  show ?thesis by (simp add: status_spec_def)
qed

subsection \<open>Single flight\<close>

lemma flag_setH2Contents [simp]:
  "generationInProgressRef (setH2Contents f st) = generationInProgressRef st"
  by (simp add: setH2Contents_def)

lemma flag_log_request [simp]:
  "generationInProgressRef (log_request i r st) = generationInProgressRef st"
  by (simp add: log_request_def)

lemma invoke_section_busy:
  "generationInProgressRef st \<Longrightarrow> generateH2Content_invoke formData i st = (st, None)"
  by (simp add: generateH2Content_invoke_def)

lemma invoke_all_busy:
  "generationInProgressRef st \<Longrightarrow> generateAllH2Contents_invoke formData st = (st, None)"
  by (simp add: generateAllH2Contents_invoke_def)

lemma flag_request:
  "generationInProgressRef (fst (generateH2Content_request formData i st)) = generationInProgressRef st"
  by (simp add: generateH2Content_request_def Let_def split: option.splits)

lemma invoke_section_flag:
  assumes "generateH2Content_invoke formData i st = (st', Some t)"
  shows "generationInProgressRef st'"
proof -
  from assms have nb: "\<not> generationInProgressRef st"
    by (auto simp: generateH2Content_invoke_def)
  obtain st1 r where r: "generateH2Content_request formData i (st \<lparr> generationInProgressRef := True \<rparr>) = (st1, r)"
    by (cases "generateH2Content_request formData i (st \<lparr> generationInProgressRef := True \<rparr>)")
  have f: "generationInProgressRef st1"
    using flag_request [of formData i "st \<lparr> generationInProgressRef := True \<rparr>"] r by simp
  from assms nb r obtain request where "r = Inr request" "st' = log_request i request st1"
    by (cases r) (auto simp: generateH2Content_invoke_def)
  with f show ?thesis by simp
qed

lemma bulk_continue_flag:
  "bulk_continue formData hr cur i st = (st', Some t) \<Longrightarrow>
     generationInProgressRef st' = generationInProgressRef st"
proof (induction formData hr cur i st rule: bulk_continue.induct)
  case (1 formData hr cur i st)
  note eq = bulk_continue.simps [of formData hr cur i st]
  show ?case
  proof (cases "i < length cur")
    case False
    with 1(2) eq show ?thesis by simp
  next
    case True
    show ?thesis
    proof (cases "isGenerated (cur ! i)")
      case True
      with \<open>i < length cur\<close> 1(2) eq
      have "bulk_continue formData hr cur (i + 1) st = (st', Some t)" by simp
      with 1(1) \<open>i < length cur\<close> True show ?thesis by simp
    next
      case False
      with \<open>i < length cur\<close> 1(2) eq show ?thesis by (auto simp: Let_def)
    qed
  qed
qed

lemma flag_enter [simp]: "generationInProgressRef (generateAll_enter st)"
  by (simp add: generateAll_enter_def)

lemma invoke_all_flag:
  assumes "generateAllH2Contents_invoke formData st = (st', Some t)"
  shows "generationInProgressRef st'"
proof -
  from assms obtain hr cur where
    "bulk_continue formData hr cur 0 (generateAll_enter st) = (st', Some t)"
    by (auto simp: generateAllH2Contents_invoke_def Let_def split: if_splits option.splits)
  from bulk_continue_flag [OF this] show ?thesis by simp
qed

lemma bulk_settled_flag:
  "bulk_settled formData hr cur i result st = (st', Some t) \<Longrightarrow>
     generationInProgressRef st' = generationInProgressRef st"
  by (auto simp: bulk_settled_def split: api_result.splits)

lemma flag_sync_refs [simp]:
  "generationInProgressRef (sync_refs st) = generationInProgressRef st"
  by (simp add: sync_refs_def)

lemma spawn_simps [simp]: "spawn None ts = ts" "spawn (Some t) ts = ts @ [t]"
  by (simp_all add: spawn_def)

lemma replace_task_single [simp]:
  "replace_task 0 None [t] = []" "replace_task 0 (Some t') [t] = [t']"
  by (simp_all add: replace_task_def)

lemma single_flight_cases:
  "single_flight (st, ts) \<longleftrightarrow> ts = [] \<or> (\<exists>t. ts = [t] \<and> generationInProgressRef st)"
  by (cases ts) (auto simp: single_flight_def)

lemma single_flight_fire:
  assumes "single_flight p"
  shows "single_flight (fire e p)"
proof -
  obtain st ts where p: "p = (st, ts)" by (cases p)
  from assms p have inv: "ts = [] \<or> (\<exists>t. ts = [t] \<and> generationInProgressRef st)"
    by (simp add: single_flight_cases)
  show ?thesis
  proof (cases e)
    case (ClickGenerate formData i)
    obtain st' t where r: "generateH2Content_invoke formData i st = (st', t)"
      by (cases "generateH2Content_invoke formData i st")
    show ?thesis
    proof (cases "generationInProgressRef st")
      case True
      with r have "st' = st" "t = None" by (simp_all add: invoke_section_busy)
      with assms p ClickGenerate r show ?thesis by simp
    next
      case False
      with inv have "ts = []" by auto
      with p ClickGenerate r show ?thesis
        by (cases t) (auto simp: single_flight_cases dest: invoke_section_flag)
    qed
  next
    case (ClickGenerateAll formData)
    obtain st' t where r: "generateAllH2Contents_invoke formData st = (st', t)"
      by (cases "generateAllH2Contents_invoke formData st")
    show ?thesis
    proof (cases "generationInProgressRef st")
      case True
      with r have "st' = st" "t = None" by (simp_all add: invoke_all_busy)
      with assms p ClickGenerateAll r show ?thesis by simp
    next
      case False
      with inv have "ts = []" by auto
      with p ClickGenerateAll r show ?thesis
        by (cases t) (auto simp: single_flight_cases dest: invoke_all_flag)
    qed
  next
    case (Settle k result)
    show ?thesis
    proof (cases "k < length ts")
      case False
      with assms p Settle show ?thesis by simp
    next
      case True
      with inv obtain t where ts: "ts = [t]" "k = 0" and busy: "generationInProgressRef st"
        by auto
      show ?thesis
      proof (cases t)
        case (SectionCall i request)
        with p Settle ts show ?thesis by (simp add: single_flight_cases)
      next
        case (BulkCall formData hr cur i request)
        obtain st' t' where r: "bulk_settled formData hr cur i result st = (st', t')"
          by (cases "bulk_settled formData hr cur i result st")
        with p Settle ts BulkCall busy show ?thesis
          by (cases t') (auto simp: single_flight_cases dest: bulk_settled_flag)
      next
        case (BulkPause formData hr cur i)
        with assms p Settle ts show ?thesis by simp
      qed
    qed
  next
    case (Timeout k)
    show ?thesis
    proof (cases "k < length ts")
      case False
      with assms p Timeout show ?thesis by simp
    next
      case True
      with inv obtain t where ts: "ts = [t]" "k = 0" and busy: "generationInProgressRef st"
        by auto
      show ?thesis
      proof (cases t)
        case (SectionCall i request)
        with assms p Timeout ts show ?thesis by simp
      next
        case (BulkCall formData hr cur i request)
        with assms p Timeout ts show ?thesis by simp
      next
        case (BulkPause formData hr cur i)
        obtain st' t' where r: "bulk_continue formData hr cur (i + 1) st = (st', t')"
          by (cases "bulk_continue formData hr cur (i + 1) st")
        with p Timeout ts BulkPause busy show ?thesis
          by (cases t') (auto simp: single_flight_cases dest: bulk_continue_flag)
      qed
    qed
  next
    case Render
    with assms p show ?thesis by (auto simp: single_flight_cases)
  qed
qed

lemma single_flight_run: "single_flight p \<Longrightarrow> single_flight (run_events es p)"
  by (induction es arbitrary: p) (simp_all add: single_flight_fire)

lemma in_flight_le_length: "in_flight ts \<le> length ts"
  by (simp add: in_flight_def)

text \<open>
  C5: whatever has happened on the page since a state without suspended tasks, at most one
  generation request is in flight, and while a call of \<open>generateH2Content\<close> or of
  \<open>generateAllH2Contents\<close> is suspended, invoking either function returns at once: the
  state of the component, the log of requests and the suspended tasks are as before.
\<close>

theorem single_flight_generation:
  "in_flight (snd (run_events es (st0, []))) \<le> 1
   \<and> (snd (run_events es (st0, [])) \<noteq> [] \<longrightarrow>
        fire (ClickGenerate formData i) (run_events es (st0, [])) = run_events es (st0, [])
      \<and> fire (ClickGenerateAll formData) (run_events es (st0, [])) = run_events es (st0, []))"
proof -
  obtain st ts where r: "run_events es (st0, []) = (st, ts)"
    by (cases "run_events es (st0, [])")
  have "single_flight (st0, [])" by (simp add: single_flight_cases)
  then have "single_flight (st, ts)" using single_flight_run [of "(st0, [])" es] r by simp
  then have inv: "ts = [] \<or> (\<exists>t. ts = [t] \<and> generationInProgressRef st)"
    by (simp add: single_flight_cases)
  have a: "in_flight ts \<le> 1"
    using inv in_flight_le_length [of ts] by auto
  have b: "fire (ClickGenerate formData i) (st, ts) = (st, ts)
      \<and> fire (ClickGenerateAll formData) (st, ts) = (st, ts)" if "ts \<noteq> []"
    using inv that by (auto simp: invoke_section_busy invoke_all_busy)
  from a b r show ?thesis by simp
qed


theorem single_flight_generation_witness:
  "snd (run_events [ClickGenerateAll example_form] (example_component, [])) \<noteq> []
   \<and> in_flight (snd (run_events [ClickGenerateAll example_form] (example_component, []))) = 1
   \<and> fire (ClickGenerate example_form 1)
         (run_events [ClickGenerateAll example_form] (example_component, []))
       = run_events [ClickGenerateAll example_form] (example_component, [])
   \<and> fire (ClickGenerateAll example_form)
         (run_events [ClickGenerateAll example_form] (example_component, []))
       = run_events [ClickGenerateAll example_form] (example_component, [])"
proof -
  have h: "snd (run_events [ClickGenerateAll example_form] (example_component, [])) \<noteq> []"
    by code_simp
  have n: "in_flight (snd (run_events [ClickGenerateAll example_form] (example_component, []))) = 1"
    by code_simp
  from single_flight_generation
    [where es = "[ClickGenerateAll example_form]" and ?st0.0 = example_component
       and formData = example_form and i = 1] h n
  show ?thesis by blast
qed

subsection \<open>The bulk run\<close>

lemma requests_after [simp]:
  "requests (after_request i request st) = requests st @ [(i, request)]"
  "requests (after_resolved i request response st) = requests st @ [(i, request)]"
  "requests (after_rejected i request err st) = requests st @ [(i, request)]"
  by (simp_all add: after_request_def after_resolved_def after_rejected_def log_request_def
      setH2Contents_def)

lemma h2Contents_after [simp]:
  "h2Contents (after_request i request st) = map_index i mark_generating (h2Contents st)"
  "h2Contents (after_resolved i request response st) =
     map_index i (mark_generated response) (map_index i mark_generating (h2Contents st))"
  "h2Contents (after_rejected i request err st) =
     map_index i (mark_failed (errorMessage_of err)) (map_index i mark_generating (h2Contents st))"
  by (simp_all add: after_request_def after_resolved_def after_rejected_def log_request_def
      setH2Contents_def)

lemma loop_done:
  "\<not> i < length cur \<Longrightarrow> generateAll_loop api formData hr cur i st = (st, None)"
  by (simp add: generateAll_loop.simps)

lemma loop_skip:
  "i < length cur \<Longrightarrow> isGenerated (cur ! i) \<Longrightarrow>
   generateAll_loop api formData hr cur i st = generateAll_loop api formData hr cur (i + 1) st"
  by (simp add: generateAll_loop.simps [of api formData hr cur i st])

lemma loop_resolved:
  "i < length cur \<Longrightarrow> \<not> isGenerated (cur ! i) \<Longrightarrow>
   api (length (requests st)) (section_request formData hr cur i) = Resolved response \<Longrightarrow>
   generateAll_loop api formData hr cur i st =
     generateAll_loop api formData hr (cur[i := mark_generated response (cur ! i)]) (i + 1)
       (after_resolved i (section_request formData hr cur i) response st)"
  by (simp add: generateAll_loop.simps [of api formData hr cur i st] Let_def
      after_resolved_def after_request_def setH2Contents_def)

lemma loop_rejected:
  "i < length cur \<Longrightarrow> \<not> isGenerated (cur ! i) \<Longrightarrow>
   api (length (requests st)) (section_request formData hr cur i) = Rejected err \<Longrightarrow>
   generateAll_loop api formData hr cur i st =
     (after_rejected i (section_request formData hr cur i) err st, Some err)"
  by (simp add: generateAll_loop.simps [of api formData hr cur i st] Let_def
      after_rejected_def after_request_def setH2Contents_def)

lemma loop_induct [case_names finished skipped resolved rejected]:
  assumes "\<And>cur i st. \<not> i < length cur \<Longrightarrow> P cur i st"
      and "\<And>cur i st. i < length cur \<Longrightarrow> isGenerated (cur ! i) \<Longrightarrow> P cur (i + 1) st \<Longrightarrow> P cur i st"
      and "\<And>cur i st response. i < length cur \<Longrightarrow> \<not> isGenerated (cur ! i) \<Longrightarrow>
             api (length (requests st)) (section_request formData hr cur i) = Resolved response \<Longrightarrow>
             P (cur[i := mark_generated response (cur ! i)]) (i + 1)
               (after_resolved i (section_request formData hr cur i) response st) \<Longrightarrow>
             P cur i st"
      and "\<And>cur i st err. i < length cur \<Longrightarrow> \<not> isGenerated (cur ! i) \<Longrightarrow>
             api (length (requests st)) (section_request formData hr cur i) = Rejected err \<Longrightarrow>
             P cur i st"
  shows "P cur i st"
proof -
  have "api' = api \<Longrightarrow> formData' = formData \<Longrightarrow> hr' = hr \<Longrightarrow> P cur i st"
    for api' formData' hr'
  proof (induction api' formData' hr' cur i st rule: generateAll_loop.induct)
    case (1 api' formData' hr' cur i st)
    note same = 1(3,4,5)
    show ?case
    proof (cases "i < length cur")
      case False
      then show ?thesis by (rule assms(1))
    next
      case True
      show ?thesis
      proof (cases "isGenerated (cur ! i)")
        case g: True
        with True 1(2) same assms(2) show ?thesis by simp
      next
        case g: False
        show ?thesis
        proof (cases "api (length (requests st)) (section_request formData hr cur i)")
          case (Resolved response)
          have "P (cur[i := mark_generated response (cur ! i)]) (i + 1)
                 (after_resolved i (section_request formData hr cur i) response st)"
            using 1(1) [OF True g refl refl refl refl] Resolved same
            by (simp add: after_resolved_def after_request_def setH2Contents_def)
          with True g Resolved show ?thesis by (rule assms(3))
        next
          case (Rejected err)
          with True g show ?thesis by (rule assms(4))
        qed
      qed
    qed
  qed
  then show ?thesis by simp
qed














lemma enter_fields [simp]:
  "requests (generateAll_enter st) = requests st"
  "h2Contents (generateAll_enter st) = h2Contents st"
  "h2ContentsRef (generateAll_enter st) = h2ContentsRef st"
  "headingsResponseRef (generateAll_enter st) = headingsResponseRef st"
  "generationStep (generateAll_enter st) = generationStep st"
  by (simp_all add: generateAll_enter_def)

lemma finally_fields [simp]:
  "requests (generateAll_finally st) = requests st"
  "h2Contents (generateAll_finally st) = h2Contents st"
  "error_message (generateAll_finally st) = error_message st"
  "generationStep (generateAll_finally st) = generationStep st"
  "\<not> generationInProgressRef (generateAll_finally st)"
  "\<not> isGeneratingAllRef (generateAll_finally st)"
  "\<not> isGeneratingAll (generateAll_finally st)"
  by (simp_all add: generateAll_finally_def)

lemma catch_fields [simp]:
  "requests (generateAll_catch st) = requests st"
  "h2Contents (generateAll_catch st) = h2Contents st"
  "error_message (generateAll_catch st) = Some bulk_failure_message"
  "generationStep (generateAll_catch st) = generationStep st"
  by (simp_all add: generateAll_catch_def)

lemma generateAll_blocked: "blocked st \<Longrightarrow> generateAllH2Contents api formData st = st"
  by (simp add: generateAllH2Contents_def blocked_def)

lemma generateAll_no_headings:
  "\<not> blocked st \<Longrightarrow> headingsResponseRef st = None \<Longrightarrow>
   generateAllH2Contents api formData st = generateAll_finally (generateAll_catch (generateAll_enter st))"
  by (simp add: generateAllH2Contents_def blocked_def Let_def)

lemma generateAll_nothing_left:
  "\<not> blocked st \<Longrightarrow> headingsResponseRef st = Some hr \<Longrightarrow>
   list_all isGenerated (h2ContentsRef st) \<Longrightarrow>
   generateAllH2Contents api formData st =
     generateAll_finally ((generateAll_enter st) \<lparr> generationStep := StepContent \<rparr>)"
  by (simp add: generateAllH2Contents_def blocked_def Let_def)

lemma generateAll_runs:
  "\<not> blocked st \<Longrightarrow> headingsResponseRef st = Some hr \<Longrightarrow>
   \<not> list_all isGenerated (h2ContentsRef st) \<Longrightarrow>
   generateAllH2Contents api formData st =
     generateAll_finally
       (case generateAll_loop api formData hr (h2ContentsRef st) 0 (generateAll_enter st) of
          (st2, None) \<Rightarrow> st2 \<lparr> generationStep := StepContent \<rparr>
        | (st2, Some err) \<Rightarrow> generateAll_catch st2)"
  by (simp add: generateAllH2Contents_def blocked_def Let_def)










subsection \<open>The functions and their tasks\<close>

text \<open>
  Each function, as a whole with the generator as a parameter, is its invocation as a task
  run to the end.
\<close>

lemma generateH2Content_drive:
  "generateH2Content api formData i st = drive api (generateH2Content_invoke formData i st)"
proof (cases "generationInProgressRef st")
  case True
  then show ?thesis
    by (simp add: generateH2Content_def generateH2Content_invoke_def)
next
  case False
  obtain st1 r where r:
    "generateH2Content_request formData i (st \<lparr> generationInProgressRef := True \<rparr>) = (st1, r)"
    by (cases "generateH2Content_request formData i (st \<lparr> generationInProgressRef := True \<rparr>)")
  show ?thesis
  proof (cases r)
    case (Inl err)
    with False r show ?thesis
      by (simp add: generateH2Content_def generateH2Content_invoke_def)
  next
    case (Inr request)
    with False r show ?thesis
      by (simp add: generateH2Content_def generateH2Content_invoke_def settle_task_def
          log_request_def)
  qed
qed

lemma bulk_continue_finished:
  "\<not> i < length cur \<Longrightarrow>
   bulk_continue formData hr cur i st =
     (generateAll_finally (st \<lparr> generationStep := StepContent \<rparr>), None)"
  by (simp add: bulk_continue.simps)

lemma bulk_continue_skip:
  "i < length cur \<Longrightarrow> isGenerated (cur ! i) \<Longrightarrow>
   bulk_continue formData hr cur i st = bulk_continue formData hr cur (i + 1) st"
  by (simp add: bulk_continue.simps [of formData hr cur i st])

lemma bulk_continue_call:
  "i < length cur \<Longrightarrow> \<not> isGenerated (cur ! i) \<Longrightarrow>
   bulk_continue formData hr cur i st =
     (after_request i (section_request formData hr cur i) st,
      Some (BulkCall formData hr cur i (section_request formData hr cur i)))"
  by (simp add: bulk_continue.simps [of formData hr cur i st] Let_def after_request_def)

lemma bulk_continue_drive:
  "drive api (bulk_continue formData hr cur i st) =
     generateAll_finally
       (case generateAll_loop api formData hr cur i st of
          (st2, None) \<Rightarrow> st2 \<lparr> generationStep := StepContent \<rparr>
        | (st2, Some err) \<Rightarrow> generateAll_catch st2)"
proof (induction cur i st rule: loop_induct [where api = api and formData = formData and hr = hr])
  case (finished cur i st)
  then show ?case by (simp add: bulk_continue_finished loop_done)
next
  case (skipped cur i st)
  then show ?case by (simp add: bulk_continue_skip loop_skip)
next
  case (resolved cur i st response)
  let ?req = "section_request formData hr cur i"
  have "drive api (bulk_continue formData hr cur i st)
      = drive api (bulk_settled formData hr cur i (api (length (requests st)) ?req)
          (after_request i ?req st))"
    using resolved(1,2) by (simp add: bulk_continue_call settle_task_def)
  also have "\<dots> = drive api (bulk_continue formData hr
        (cur[i := mark_generated response (cur ! i)]) (i + 1) (after_resolved i ?req response st))"
    using resolved(3) by (simp add: bulk_settled_def after_resolved_def settle_task_def)
  finally show ?case
    using resolved by (simp add: loop_resolved)
next
  case (rejected cur i st err)
  let ?req = "section_request formData hr cur i"
  have "drive api (bulk_continue formData hr cur i st)
      = drive api (bulk_settled formData hr cur i (api (length (requests st)) ?req)
          (after_request i ?req st))"
    using rejected(1,2) by (simp add: bulk_continue_call settle_task_def)
  also have "\<dots> = generateAll_finally (generateAll_catch (after_rejected i ?req err st))"
    using rejected(3) by (simp add: bulk_settled_def after_rejected_def)
  finally show ?case
    using rejected by (simp add: loop_rejected)
qed

lemma generateAllH2Contents_drive:
  "generateAllH2Contents api formData st = drive api (generateAllH2Contents_invoke formData st)"
proof (cases "blocked st")
  case True
  then show ?thesis
    by (simp add: generateAll_blocked generateAllH2Contents_invoke_def blocked_def)
next
  case nb: False
  show ?thesis
  proof (cases "headingsResponseRef st")
    case None
    with nb show ?thesis
      by (simp add: generateAll_no_headings generateAllH2Contents_invoke_def blocked_def Let_def)
  next
    case (Some hr)
    show ?thesis
    proof (cases "list_all isGenerated (h2ContentsRef st)")
      case True
      with nb Some show ?thesis
        by (simp add: generateAll_nothing_left generateAllH2Contents_invoke_def blocked_def Let_def)
    next
      case False
      with nb Some show ?thesis
        by (simp add: generateAll_runs generateAllH2Contents_invoke_def blocked_def Let_def
            bulk_continue_drive)
    qed
  qed
qed

end
